theory Spec2Isabelle
  imports Main "HOL-Library.Sublist" "HOL-Library.Word"
begin

section \<open>Slices of strings and run-time panics\<close>

text \<open>
  A Go \<^verbatim>\<open>[]string\<close> is a list of strings and a Go \<^verbatim>\<open>string\<close> a list of bytes;
  only lengths and elements are read by the code below. Indexing past the length and
  slicing outside the bounds panic at run time, so both are results of the model.
\<close>

datatype panic = IndexOutOfRange | SliceBoundsOutOfRange

text \<open>
  \<^verbatim>\<open>s[:k]\<close>. Go accepts \<open>0 \<le> k \<le> cap s\<close>; a list carries no capacity, so the model
  accepts \<open>0 \<le> k \<le> len s\<close> (the rule for a \<^verbatim>\<open>string\<close>) and panics on anything else.
\<close>

definition slice_to :: "'a list \<Rightarrow> int \<Rightarrow> panic + 'a list" where
  "slice_to s k =
     (if 0 \<le> k \<and> k \<le> int (length s) then Inr (take (nat k) s)
      else Inl SliceBoundsOutOfRange)"

section \<open>equal\<close>

text \<open>
  \<^verbatim>\<open>
  func equal(new, old []string) bool {
      for i := range new {
          if new[i] != old[i] { return false }
      }
      return true
  }
  \<close>
  The loop runs over the indices of \<open>new\<close>; \<open>old[i]\<close> panics when \<open>old\<close> is shorter.
\<close>

function equal_loop :: "nat \<Rightarrow> string list \<Rightarrow> string list \<Rightarrow> panic + bool" where
  "equal_loop i new old =
     (if i < length new then
        (if \<not> i < length old then Inl IndexOutOfRange
         else if new ! i \<noteq> old ! i then Inr False
         else equal_loop (Suc i) new old)
      else Inr True)"
  by pat_completeness auto
termination
  by (relation "measure (\<lambda>(i, new, old). length new - i)") auto

definition equal_strs :: "string list \<Rightarrow> string list \<Rightarrow> panic + bool" where
  "equal_strs new old = equal_loop 0 new old"

section \<open>ShouldEnforceImmutability\<close>

text \<open>
  \<^verbatim>\<open>
  func ShouldEnforceImmutability(new, old []string) bool {
      sizeDelta := len(new) - len(old)
      if sizeDelta > 0 {
          newA := new[:len(new)-sizeDelta]
          if equal(newA, old) { return false }
          return ShouldEnforceImmutability(newA, old)
      }
      return sizeDelta < 0 || sizeDelta == 0
  }
  \<close>
\<close>

function ShouldEnforceImmutability :: "string list \<Rightarrow> string list \<Rightarrow> panic + bool" where
  "ShouldEnforceImmutability new old =
     (let sizeDelta = int (length new) - int (length old) in
      if sizeDelta > 0 then
        (case slice_to new (int (length new) - sizeDelta) of
           Inl p \<Rightarrow> Inl p
         | Inr newA \<Rightarrow>
             (case equal_strs newA old of
                Inl p \<Rightarrow> Inl p
              | Inr eq \<Rightarrow>
                  if eq then Inr False
                  else ShouldEnforceImmutability newA old))
      else Inr (sizeDelta < 0 \<or> sizeDelta = 0))"
  by pat_completeness auto
termination
  by (relation "measure (\<lambda>(new, old). length new)")
     (auto simp: slice_to_def split: if_splits)

text \<open>
  The decision as one test, without recursion: enforcement is lifted exactly when
  \<open>new\<close> is longer than \<open>old\<close> and its first \<open>len old\<close> elements are those of \<open>old\<close>.
  This definition follows the wording of the specification and is compared with the
  function above.
\<close>

definition ShouldEnforceImmutability_direct :: "string list \<Rightarrow> string list \<Rightarrow> bool" where
  "ShouldEnforceImmutability_direct new old =
     (\<not> (length new > length old \<and> take (length old) new = old))"

section \<open>Field paths and validation errors\<close>

text \<open>
  Modelled from the spec: the package \<^verbatim>\<open>k8s.io/apimachinery/pkg/util/validation/field\<close>
  (\<^verbatim>\<open>Path\<close>, \<^verbatim>\<open>Path.Child\<close>, \<^verbatim>\<open>Error\<close>, \<^verbatim>\<open>ErrorList\<close>, \<^verbatim>\<open>Required\<close>, \<^verbatim>\<open>Invalid\<close>) is not
  part of the sources. A field path is an ordered sequence of segments (names or
  indices); \<^verbatim>\<open>Child\<close> extends it by one name.
\<close>

datatype PathSegment = Segment string | Index int

type_synonym FieldPath = "PathSegment list"

definition Child :: "FieldPath \<Rightarrow> string \<Rightarrow> FieldPath" where
  "Child fldPath name = fldPath @ [Segment name]"

text \<open>
  Modelled from the spec: a validation error (\<^verbatim>\<open>field.Error\<close>, not part of the sources)
  is a path, the invalid value or a marker that a value was omitted, and a message,
  tagged with its kind ("Required" or "Invalid"). An error list is an ordered sequence
  in discovery order.
\<close>

datatype ErrorKind = Required | Invalid

datatype BadValue = Omitted | Value string

record ValidationError =
  err_kind :: ErrorKind
  err_path :: FieldPath
  err_value :: BadValue
  err_message :: string

type_synonym ErrorList = "ValidationError list"

text \<open>Modelled from the spec: \<^verbatim>\<open>field.Required(path, detail)\<close>, not part of the sources.\<close>

definition field_Required :: "FieldPath \<Rightarrow> string \<Rightarrow> ValidationError" where
  "field_Required fldPath detail =
     \<lparr>err_kind = Required, err_path = fldPath, err_value = Omitted, err_message = detail\<rparr>"

text \<open>Modelled from the spec: \<^verbatim>\<open>field.Invalid(path, value, detail)\<close>, not part of the sources.\<close>

definition field_Invalid :: "FieldPath \<Rightarrow> string \<Rightarrow> string \<Rightarrow> ValidationError" where
  "field_Invalid fldPath v detail =
     \<lparr>err_kind = Invalid, err_path = fldPath, err_value = Value v, err_message = detail\<rparr>"

section \<open>validateSecretReference\<close>

text \<open>
  \<^verbatim>\<open>corev1.SecretReference\<close>: the two string attributes the function reads.
\<close>

record SecretReference =
  Name :: string
  Namespace :: string

text \<open>
  \<^verbatim>\<open>
  func validateSecretReference(ref corev1.SecretReference, fldPath *field.Path) field.ErrorList {
      allErrs := field.ErrorList{}
      if len(ref.Name) == 0 {
          allErrs = append(allErrs, field.Required(fldPath.Child("name"), "must provide a name"))
      }
      if len(ref.Namespace) == 0 {
          allErrs = append(allErrs, field.Required(fldPath.Child("namespace"), "must provide a namespace"))
      }
      return allErrs
  }
  \<close>
\<close>

definition validateSecretReference :: "SecretReference \<Rightarrow> FieldPath \<Rightarrow> ErrorList" where
  "validateSecretReference ref fldPath =
     (let allErrs = [];
          allErrs =
            (if length (Name ref) = 0
             then allErrs @ [field_Required (Child fldPath ''name'') ''must provide a name'']
             else allErrs);
          allErrs =
            (if length (Namespace ref) = 0
             then allErrs @ [field_Required (Child fldPath ''namespace'') ''must provide a namespace'']
             else allErrs)
      in allErrs)"

section \<open>validateNameConsecutiveHyphens\<close>

text \<open>
  \<^verbatim>\<open>strings.Contains(s, substr)\<close> of the Go standard library: whether \<open>substr\<close> starts
  at some position of \<open>s\<close>, tried from left to right.
\<close>

fun strings_Contains :: "string \<Rightarrow> string \<Rightarrow> bool" where
  "strings_Contains [] substr = (substr = [])"
| "strings_Contains (c # cs) substr =
     (take (length substr) (c # cs) = substr \<or> strings_Contains cs substr)"

text \<open>
  \<^verbatim>\<open>
  func validateNameConsecutiveHyphens(name string, fldPath *field.Path) field.ErrorList {
      allErrs := field.ErrorList{}
      if strings.Contains(name, "--") {
          allErrs = append(allErrs, field.Invalid(fldPath, name, "name may not contain two consecutive hyphens"))
      }
      return allErrs
  }
  \<close>
\<close>

definition validateNameConsecutiveHyphens :: "string \<Rightarrow> FieldPath \<Rightarrow> ErrorList" where
  "validateNameConsecutiveHyphens name fldPath =
     (let allErrs = [];
          allErrs =
            (if strings_Contains name ''--''
             then allErrs @ [field_Invalid fldPath name
                               ''name may not contain two consecutive hyphens'']
             else allErrs)
      in allErrs)"

section \<open>getPercentValue\<close>

text \<open>
  \<^verbatim>\<open>intstr.IntOrString\<close>: a tag and the two payloads, of which the tag selects one.
\<close>

datatype intstr_Type = intstr_Int | intstr_String

record IntOrString =
  Type :: intstr_Type
  IntVal :: "32 word"
  StrVal :: string

definition isDigit :: "char \<Rightarrow> bool" where
  "isDigit c = (c \<in> set ''0123456789'')"

text \<open>
  Modelled from the spec: \<^verbatim>\<open>validation.IsValidPercent\<close> is not part of the sources. It
  returns a list of violation messages, empty exactly for the percent syntax: one or
  more digits followed by a single \<^verbatim>\<open>%\<close>.
\<close>

definition IsValidPercent :: "string \<Rightarrow> string list" where
  "IsValidPercent percent =
     (if percent \<noteq> [] \<and> last percent = CHR ''%'' \<and> butlast percent \<noteq> []
         \<and> list_all isDigit (butlast percent)
      then []
      else [''a valid percent string must be a numeric string followed by an ending percent sign''])"

text \<open>
  \<^verbatim>\<open>strconv.Atoi\<close> of the Go standard library, base 10 into a 64-bit \<^verbatim>\<open>int\<close>: an optional
  sign and one or more digits; a syntax error gives 0, a value out of range gives the
  nearest bound, each with its error.
\<close>

datatype NumError = ErrSyntax | ErrRange

definition digitVal :: "char \<Rightarrow> int" where
  "digitVal c = int (length (takeWhile (\<lambda>d. d \<noteq> c) ''0123456789''))"

definition strconv_Atoi :: "string \<Rightarrow> int \<times> NumError option" where
  "strconv_Atoi s =
     (let (neg, ds) =
            (case s of
               [] \<Rightarrow> (False, [])
             | c # rest \<Rightarrow>
                 if c = CHR ''-'' then (True, rest)
                 else if c = CHR ''+'' then (False, rest)
                 else (False, s))
      in if ds \<noteq> [] \<and> list_all isDigit ds then
           (let n = foldl (\<lambda>acc c. acc * 10 + digitVal c) 0 ds;
                v = (if neg then - n else n)
            in if v > 2 ^ 63 - 1 then (2 ^ 63 - 1, Some ErrRange)
               else if v < - (2 ^ 63) then (- (2 ^ 63), Some ErrRange)
               else (v, None))
         else (0, Some ErrSyntax))"

text \<open>
  \<^verbatim>\<open>
  func getPercentValue(intOrStringValue intstr.IntOrString) (int, bool) {
      if intOrStringValue.Type != intstr.String {
          return 0, false
      }
      if len(validation.IsValidPercent(intOrStringValue.StrVal)) != 0 {
          return 0, false
      }
      value, _ := strconv.Atoi(intOrStringValue.StrVal[:len(intOrStringValue.StrVal)-1])
      return value, true
  }
  \<close>
\<close>

definition getPercentValue :: "IntOrString \<Rightarrow> panic + (int \<times> bool)" where
  "getPercentValue intOrStringValue =
     (if Type intOrStringValue \<noteq> intstr_String then Inr (0, False)
      else if length (IsValidPercent (StrVal intOrStringValue)) \<noteq> 0 then Inr (0, False)
      else
        (case slice_to (StrVal intOrStringValue)
                (int (length (StrVal intOrStringValue)) - 1) of
           Inl p \<Rightarrow> Inl p
         | Inr digits \<Rightarrow>
             (let (v, _) = strconv_Atoi digits in Inr (v, True))))"

section \<open>Properties of equal and ShouldEnforceImmutability\<close>

declare equal_loop.simps [simp del]
declare ShouldEnforceImmutability.simps [simp del]

text \<open>
  When \<open>old\<close> is at least as long as \<open>new\<close> the loop never reads out of range, and it
  answers whether the two agree on every index from \<open>i\<close> on.
\<close>

lemma equal_loop_within:
  "length new \<le> length old \<Longrightarrow>
   equal_loop i new old = Inr (\<forall>j. i \<le> j \<and> j < length new \<longrightarrow> new ! j = old ! j)"
proof (induction i new old rule: equal_loop.induct)
  case (1 i new old)
  show ?case
  proof (cases "i < length new")
    case False
    then show ?thesis by (auto simp: equal_loop.simps [of i new old])
  next
    case True
    with "1.prems" have io: "i < length old" by simp
    show ?thesis
    proof (cases "new ! i = old ! i")
      case False
      with True io show ?thesis
        by (auto simp: equal_loop.simps [of i new old])
    next
      case eq: True
      have "equal_loop i new old = equal_loop (Suc i) new old"
        using True io eq by (simp add: equal_loop.simps [of i new old])
      also have "\<dots> = Inr (\<forall>j. Suc i \<le> j \<and> j < length new \<longrightarrow> new ! j = old ! j)"
        using "1.IH" True io eq "1.prems" by simp
      also have "(\<forall>j. Suc i \<le> j \<and> j < length new \<longrightarrow> new ! j = old ! j)
                 = (\<forall>j. i \<le> j \<and> j < length new \<longrightarrow> new ! j = old ! j)"
        using eq by (metis Suc_leI le_neq_implies_less Suc_leD)
      finally show ?thesis .
    qed
  qed
qed

lemma equal_strs_same_length:
  "length new = length old \<Longrightarrow> equal_strs new old = Inr (new = old)"
  by (simp add: equal_strs_def equal_loop_within list_eq_iff_nth_eq)

lemma slice_to_shorter:
  "length old < length new \<Longrightarrow>
   slice_to new (int (length new) - (int (length new) - int (length old)))
     = Inr (take (length old) new)"
  by (simp add: slice_to_def)

lemma not_longer_enforces:
  "length new \<le> length old \<Longrightarrow> ShouldEnforceImmutability new old = Inr True"
  by (auto simp: ShouldEnforceImmutability.simps [of new old] Let_def)

text \<open>The result of every call, in closed form.\<close>

lemma enforce_closed_form:
  "ShouldEnforceImmutability new old =
     Inr (\<not> (length old < length new \<and> take (length old) new = old))"
proof (cases "length old < length new")
  case False
  then show ?thesis by (simp add: not_longer_enforces)
next
  case True
  let ?newA = "take (length old) new"
  have len: "length ?newA = length old" using True by simp
  have eq: "equal_strs ?newA old = Inr (?newA = old)"
    using len by (rule equal_strs_same_length)
  have inner: "ShouldEnforceImmutability ?newA old = Inr True"
    using len by (simp add: not_longer_enforces)
  show ?thesis
    using True slice_to_shorter [OF True] eq inner
    by (simp add: ShouldEnforceImmutability.simps [of new old] Let_def)
qed

lemma proper_prefix_take:
  "(length old < length new \<and> take (length old) new = old)
   \<longleftrightarrow> (\<exists>extra. extra \<noteq> [] \<and> new = old @ extra)"
proof
  assume a: "length old < length new \<and> take (length old) new = old"
  then have "new = old @ drop (length old) new"
    by (metis append_take_drop_id)
  moreover have "drop (length old) new \<noteq> []" using a by simp
  ultimately show "\<exists>extra. extra \<noteq> [] \<and> new = old @ extra" by blast
next
  assume "\<exists>extra. extra \<noteq> [] \<and> new = old @ extra"
  then show "length old < length new \<and> take (length old) new = old" by auto
qed

section \<open>Claims about ShouldEnforceImmutability\<close>

text \<open>
  Claim C1, as stated: the result is false whenever \<open>new\<close> arises from \<open>old\<close> by inserting
  zero or more elements at arbitrary positions. It fails on the code: with one element
  inserted in the middle, and with no element inserted at all, the result is true.
\<close>

theorem arbitrary_insertion_counterexample:
  "subseq [''a'', ''b''] [''a'', ''x'', ''b'']
   \<and> ShouldEnforceImmutability [''a'', ''x'', ''b''] [''a'', ''b''] = Inr True
   \<and> subseq [''a'', ''b''] [''a'', ''b'']
   \<and> ShouldEnforceImmutability [''a'', ''b''] [''a'', ''b''] = Inr True"
  by (simp add: enforce_closed_form)

text \<open>
  Claim C1, amended: among the sequences \<open>new\<close> that arise from \<open>old\<close> by insertions, the
  result is false exactly for those where at least one element was inserted and every
  inserted element comes after the last element of \<open>old\<close>, that is, where \<open>old\<close> is a
  proper prefix of \<open>new\<close>; for the others it is true.
\<close>

theorem insertion_allowed_only_at_end:
  "subseq old new \<Longrightarrow>
   ShouldEnforceImmutability new old = Inr (\<not> strict_prefix old new)"
proof -
  have "strict_prefix old new \<longleftrightarrow> (\<exists>extra. extra \<noteq> [] \<and> new = old @ extra)"
    by (auto simp: strict_prefix_def prefix_def)
  then show ?thesis
    by (simp add: enforce_closed_form proper_prefix_take)
qed

text \<open>Claim C1, amended, at an append and at an insertion in the middle.\<close>

theorem insertion_allowed_only_at_end_witness:
  "subseq [''a'', ''b''] [''a'', ''b'', ''c'']
   \<and> ShouldEnforceImmutability [''a'', ''b'', ''c''] [''a'', ''b''] = Inr False
   \<and> subseq [''a'', ''b''] [''a'', ''x'', ''b'']
   \<and> ShouldEnforceImmutability [''a'', ''x'', ''b''] [''a'', ''b''] = Inr True"
proof -
  have h1: "subseq [''a'', ''b''] [''a'', ''b'', ''c'']" by simp
  have h2: "subseq [''a'', ''b''] [''a'', ''x'', ''b'']" by simp
  show ?thesis
    using h1 h2 insertion_allowed_only_at_end [OF h1] insertion_allowed_only_at_end [OF h2]
    by simp
qed

text \<open>
  Claim C2: for every \<open>old\<close> and every non-empty \<open>extra\<close>, the result on \<open>old @ extra\<close>
  against \<open>old\<close> is false: a pure trailing append is always allowed.
\<close>

theorem trailing_append_allowed:
  "extra \<noteq> [] \<Longrightarrow> ShouldEnforceImmutability (old @ extra) old = Inr False"
  by (simp add: enforce_closed_form)

text \<open>Claim C2 at \<open>old = [a, b]\<close>, \<open>extra = [c]\<close>.\<close>

theorem trailing_append_allowed_witness:
  "[''c''] \<noteq> ([] :: string list)
   \<and> ShouldEnforceImmutability ([''a'', ''b''] @ [''c'']) [''a'', ''b''] = Inr False"
proof -
  have h: "[''c''] \<noteq> ([] :: string list)" by simp
  show ?thesis
    using h trailing_append_allowed [OF h, of "[''a'', ''b'']"] by simp
qed

text \<open>
  Claim C3: for sequences of equal length the result is true, whatever their elements;
  in particular the result on a sequence against itself is true.
\<close>

theorem equal_length_enforces:
  "(length new = length old \<longrightarrow> ShouldEnforceImmutability new old = Inr True)
   \<and> ShouldEnforceImmutability s s = Inr True"
  by (simp add: not_longer_enforces)

text \<open>Claim C3 at a reordering of two elements and at an unchanged sequence.\<close>

theorem equal_length_enforces_witness:
  "length [''b'', ''a''] = length [''a'', ''b'']
   \<and> ShouldEnforceImmutability [''b'', ''a''] [''a'', ''b''] = Inr True
   \<and> ShouldEnforceImmutability [''a'', ''b''] [''a'', ''b''] = Inr True"
  using equal_length_enforces [of "[''b'', ''a'']" "[''a'', ''b'']" "[''a'', ''b'']"]
  by simp

text \<open>
  Claim C4: when \<open>new\<close> is shorter than \<open>old\<close> the result is true; in particular, for a
  non-empty \<open>old\<close>, the result on \<^verbatim>\<open>old[:len(old)-1]\<close> against \<open>old\<close> is true.
\<close>

theorem shrinking_enforces:
  "(length new < length old \<longrightarrow> ShouldEnforceImmutability new old = Inr True)
   \<and> (1 \<le> length old \<longrightarrow>
        (\<exists>shorter. slice_to old (int (length old) - 1) = Inr shorter
           \<and> length shorter = length old - 1
           \<and> ShouldEnforceImmutability shorter old = Inr True))"
proof -
  have "nat (int (length old) - 1) = length old - 1" by simp
  then show ?thesis
    by (simp add: not_longer_enforces slice_to_def)
qed

text \<open>Claim C4 at \<open>new = [a]\<close>, \<open>old = [a, b]\<close>.\<close>

theorem shrinking_enforces_witness:
  "length [''a''] < length [''a'', ''b'']
   \<and> ShouldEnforceImmutability [''a''] [''a'', ''b''] = Inr True
   \<and> 1 \<le> length [''a'', ''b'']
   \<and> slice_to [''a'', ''b''] (int (length [''a'', ''b'']) - 1) = Inr [''a'']"
  using shrinking_enforces [of "[''a'']" "[''a'', ''b'']"]
  by (simp add: slice_to_def)

text \<open>
  Claim C5: an insertion in the middle and a reordering give true, on the two inputs
  named by the specification; and a result of false is given only when \<open>new\<close> is \<open>old\<close>
  followed by at least one further element.
\<close>

theorem middle_insertion_and_reorder_enforce:
  "ShouldEnforceImmutability [''a'', ''x'', ''b''] [''a'', ''b''] = Inr True
   \<and> ShouldEnforceImmutability [''b'', ''a''] [''a'', ''b''] = Inr True
   \<and> (ShouldEnforceImmutability new old = Inr False \<longrightarrow>
        (\<exists>extra. extra \<noteq> [] \<and> new = old @ extra))"
proof -
  have "ShouldEnforceImmutability new old = Inr False \<longrightarrow>
        (\<exists>extra. extra \<noteq> [] \<and> new = old @ extra)"
    using proper_prefix_take [of old new] by (simp add: enforce_closed_form)
  then show ?thesis by (simp add: enforce_closed_form)
qed

text \<open>Claim C5 at \<open>new = [a, b, c]\<close>, \<open>old = [a, b]\<close>, where the result is false.\<close>

theorem middle_insertion_and_reorder_enforce_witness:
  "ShouldEnforceImmutability [''a'', ''b'', ''c''] [''a'', ''b''] = Inr False
   \<and> (\<exists>extra. extra \<noteq> [] \<and> [''a'', ''b'', ''c''] = [''a'', ''b''] @ extra)"
proof -
  have h: "ShouldEnforceImmutability [''a'', ''b'', ''c''] [''a'', ''b''] = Inr False"
    by (simp add: enforce_closed_form)
  show ?thesis
    using h middle_insertion_and_reorder_enforce [of "[''a'', ''b'', ''c'']" "[''a'', ''b'']"]
    by blast
qed

text \<open>
  Claim C6: every call returns a boolean and never panics; and whenever the recursive
  branch is taken, the sequence handed to the recursive call is strictly shorter than
  \<open>new\<close>. (The function is defined by well-founded recursion on the length of \<open>new\<close>.)
\<close>

theorem always_returns_boolean:
  "(\<exists>b. ShouldEnforceImmutability new old = Inr b)
   \<and> (0 < int (length new) - int (length old) \<longrightarrow>
        (\<exists>newA. slice_to new (int (length new) - (int (length new) - int (length old)))
                   = Inr newA
           \<and> length newA < length new))"
  by (simp add: enforce_closed_form slice_to_def)

text \<open>Claim C6 at \<open>new = [a, x, b]\<close>, \<open>old = [a, b]\<close>, where the recursive call is made.\<close>

theorem always_returns_boolean_witness:
  "0 < int (length [''a'', ''x'', ''b'']) - int (length [''a'', ''b''])
   \<and> (\<exists>b. ShouldEnforceImmutability [''a'', ''x'', ''b''] [''a'', ''b''] = Inr b)
   \<and> (\<exists>newA. slice_to [''a'', ''x'', ''b'']
                 (int (length [''a'', ''x'', ''b''])
                    - (int (length [''a'', ''x'', ''b'']) - int (length [''a'', ''b''])))
               = Inr newA
         \<and> length newA < length [''a'', ''x'', ''b''])"
proof -
  have h: "0 < int (length [''a'', ''x'', ''b'']) - int (length [''a'', ''b''])" by simp
  show ?thesis
    using h always_returns_boolean [of "[''a'', ''x'', ''b'']" "[''a'', ''b'']"]
    by blast
qed

text \<open>
  Claim C10: the function agrees with the non-recursive decision on every input, so
  its result is false exactly when \<open>new\<close> is longer than \<open>old\<close> and starts with \<open>old\<close>; and
  whenever \<open>new\<close> is longer than \<open>old\<close>, the truncated sequence has the length of \<open>old\<close> and
  the call on it returns true at once.
\<close>

theorem recursion_is_one_level:
  "ShouldEnforceImmutability new old = Inr (ShouldEnforceImmutability_direct new old)
   \<and> ((ShouldEnforceImmutability new old = Inr False)
        \<longleftrightarrow> (length new > length old \<and> take (length old) new = old))
   \<and> (0 < int (length new) - int (length old) \<longrightarrow>
        (\<exists>newA. slice_to new (int (length new) - (int (length new) - int (length old)))
                   = Inr newA
           \<and> int (length newA) - int (length old) = 0
           \<and> ShouldEnforceImmutability newA old = Inr True))"
  by (simp add: enforce_closed_form ShouldEnforceImmutability_direct_def slice_to_def)

text \<open>Claim C10 at \<open>new = [a, x, b]\<close>, \<open>old = [a, b]\<close>, where the truncation is \<open>[a, x]\<close>.\<close>

theorem recursion_is_one_level_witness:
  "0 < int (length [''a'', ''x'', ''b'']) - int (length [''a'', ''b''])
   \<and> ShouldEnforceImmutability [''a'', ''x'', ''b''] [''a'', ''b''] = Inr True
   \<and> ShouldEnforceImmutability_direct [''a'', ''x'', ''b''] [''a'', ''b'']
   \<and> slice_to [''a'', ''x'', ''b'']
        (int (length [''a'', ''x'', ''b''])
           - (int (length [''a'', ''x'', ''b'']) - int (length [''a'', ''b''])))
      = Inr [''a'', ''x'']
   \<and> ShouldEnforceImmutability [''a'', ''x''] [''a'', ''b''] = Inr True"
  using recursion_is_one_level [of "[''a'', ''x'', ''b'']" "[''a'', ''b'']"]
  by (simp add: slice_to_def ShouldEnforceImmutability_direct_def)

section \<open>Claims about the field validators\<close>

text \<open>The result of \<open>validateSecretReference\<close> by cases on the two attributes.\<close>

lemma validateSecretReference_cases:
  "validateSecretReference ref fldPath =
     (if Name ref = [] then [field_Required (Child fldPath ''name'') ''must provide a name'']
      else [])
     @ (if Namespace ref = []
        then [field_Required (Child fldPath ''namespace'') ''must provide a namespace'']
        else [])"
  by (simp add: validateSecretReference_def)

lemma Child_name_neq_namespace: "Child p ''name'' \<noteq> Child p ''namespace''"
  by (simp add: Child_def)

text \<open>
  Claim C7: the result holds a "Required" error at \<open>path.name\<close> exactly when the name is
  empty, and one at \<open>path.namespace\<close> exactly when the namespace is empty; with both
  empty it is the two errors, the one for the name first; with both non-empty it is
  the empty list.
\<close>

theorem validateSecretReference_required:
  "((\<exists>e \<in> set (validateSecretReference ref p).
        err_kind e = Required \<and> err_path e = Child p ''name'') \<longleftrightarrow> Name ref = [])
   \<and> ((\<exists>e \<in> set (validateSecretReference ref p).
        err_kind e = Required \<and> err_path e = Child p ''namespace'') \<longleftrightarrow> Namespace ref = [])
   \<and> (Name ref = [] \<and> Namespace ref = [] \<longrightarrow>
        validateSecretReference ref p =
          [field_Required (Child p ''name'') ''must provide a name'',
           field_Required (Child p ''namespace'') ''must provide a namespace''])
   \<and> (Name ref \<noteq> [] \<and> Namespace ref \<noteq> [] \<longrightarrow> validateSecretReference ref p = [])"
proof -
  have ne: "Child p ''namespace'' \<noteq> Child p ''name''"
    using Child_name_neq_namespace [of p] by simp
  show ?thesis
    using ne Child_name_neq_namespace [of p]
    by (cases "Name ref = []"; cases "Namespace ref = []")
       (simp_all add: validateSecretReference_cases field_Required_def)
qed

text \<open>
  Claim C7 at a reference with both attributes empty and at one with both set, under
  the path \<open>spec.secretRef\<close>.
\<close>

theorem validateSecretReference_required_witness:
  "Name \<lparr>Name = [], Namespace = []\<rparr> = [] \<and> Namespace \<lparr>Name = [], Namespace = []\<rparr> = []
   \<and> validateSecretReference \<lparr>Name = [], Namespace = []\<rparr>
        [Segment ''spec'', Segment ''secretRef'']
      = [field_Required [Segment ''spec'', Segment ''secretRef'', Segment ''name'']
           ''must provide a name'',
         field_Required [Segment ''spec'', Segment ''secretRef'', Segment ''namespace'']
           ''must provide a namespace'']
   \<and> Name \<lparr>Name = ''backup'', Namespace = ''garden''\<rparr> \<noteq> []
   \<and> Namespace \<lparr>Name = ''backup'', Namespace = ''garden''\<rparr> \<noteq> []
   \<and> validateSecretReference \<lparr>Name = ''backup'', Namespace = ''garden''\<rparr>
        [Segment ''spec'', Segment ''secretRef''] = []"
  using
    validateSecretReference_required
      [of "\<lparr>Name = [], Namespace = []\<rparr>" "[Segment ''spec'', Segment ''secretRef'']"]
    validateSecretReference_required
      [of "\<lparr>Name = ''backup'', Namespace = ''garden''\<rparr>"
          "[Segment ''spec'', Segment ''secretRef'']"]
  by (simp add: Child_def)

text \<open>\<open>strings_Contains\<close> decides whether \<open>substr\<close> occurs somewhere in \<open>s\<close>.\<close>

lemma strings_Contains_iff:
  "strings_Contains s substr \<longleftrightarrow> (\<exists>ps ss. s = ps @ substr @ ss)"
proof (induction s)
  case Nil
  then show ?case by auto
next
  case (Cons c cs)
  have "(\<exists>ps ss. c # cs = ps @ substr @ ss)
        \<longleftrightarrow> (\<exists>ss. c # cs = substr @ ss) \<or> (\<exists>ps ss. cs = ps @ substr @ ss)"
    (is "?L \<longleftrightarrow> ?A \<or> ?B")
  proof
    assume ?L
    then obtain ps ss where e: "c # cs = ps @ substr @ ss" by blast
    show "?A \<or> ?B"
    proof (cases ps)
      case Nil
      with e show ?thesis by auto
    next
      case (Cons p ps')
      with e have "cs = ps' @ substr @ ss" by simp
      then show ?thesis by blast
    qed
  next
    assume "?A \<or> ?B"
    then show ?L
    proof
      assume ?A
      then obtain ss where "c # cs = [] @ substr @ ss" by auto
      then show ?L by blast
    next
      assume ?B
      then obtain ps ss where "cs = ps @ substr @ ss" by blast
      then have "c # cs = (c # ps) @ substr @ ss" by simp
      then show ?L by blast
    qed
  qed
  moreover have "take (length substr) (c # cs) = substr \<longleftrightarrow> (\<exists>ss. c # cs = substr @ ss)"
    by (metis append_eq_conv_conj)
  ultimately show ?case using Cons.IH by simp
qed

text \<open>
  Claim C8: the result is the single "Invalid" error at \<open>path\<close> exactly when \<^verbatim>\<open>--\<close> occurs
  somewhere in \<open>name\<close>, and the empty list exactly when it does not; it never holds more
  than one error.
\<close>

theorem validateNameConsecutiveHyphens_invalid:
  "((validateNameConsecutiveHyphens name p
       = [field_Invalid p name ''name may not contain two consecutive hyphens''])
      \<longleftrightarrow> (\<exists>ps ss. name = ps @ ''--'' @ ss))
   \<and> ((validateNameConsecutiveHyphens name p = [])
      \<longleftrightarrow> \<not> (\<exists>ps ss. name = ps @ ''--'' @ ss))
   \<and> length (validateNameConsecutiveHyphens name p) \<le> 1"
  by (simp add: validateNameConsecutiveHyphens_def strings_Contains_iff)

text \<open>Claim C8 at the names \<^verbatim>\<open>foo--bar\<close> and \<^verbatim>\<open>foo-bar\<close>.\<close>

theorem validateNameConsecutiveHyphens_invalid_witness:
  "validateNameConsecutiveHyphens ''foo--bar'' [Segment ''metadata'', Segment ''name'']
     = [field_Invalid [Segment ''metadata'', Segment ''name''] ''foo--bar''
          ''name may not contain two consecutive hyphens'']
   \<and> validateNameConsecutiveHyphens ''foo-bar'' [Segment ''metadata'', Segment ''name''] = []"
proof -
  have "''foo--bar'' = ''foo'' @ ''--'' @ ''bar''" by simp
  then have occ: "\<exists>ps ss. ''foo--bar'' = ps @ ''--'' @ ss" by blast
  have no: "validateNameConsecutiveHyphens ''foo-bar'' [Segment ''metadata'', Segment ''name'']
              = []"
    by (simp add: validateNameConsecutiveHyphens_def)
  show ?thesis
    using occ no
      validateNameConsecutiveHyphens_invalid
        [of "''foo--bar''" "[Segment ''metadata'', Segment ''name'']"]
    by blast
qed

section \<open>Claims about getPercentValue\<close>

text \<open>
  Claim C9: on a string-typed value whose string is \<^verbatim>\<open>42%\<close> the result is \<open>(42, true)\<close>; on
  an integer-typed value, such as 5, it is \<open>(0, false)\<close>.
\<close>

theorem getPercentValue_examples:
  "getPercentValue \<lparr>Type = intstr_String, IntVal = iv, StrVal = ''42%''\<rparr> = Inr (42, True)
   \<and> getPercentValue \<lparr>Type = intstr_Int, IntVal = n, StrVal = sv\<rparr> = Inr (0, False)"
  by (simp add: getPercentValue_def IsValidPercent_def isDigit_def slice_to_def
        strconv_Atoi_def digitVal_def)

text \<open>Claim C9 at the string-typed \<^verbatim>\<open>42%\<close> and at the integer-typed 5.\<close>

theorem getPercentValue_examples_witness:
  "getPercentValue \<lparr>Type = intstr_String, IntVal = 0, StrVal = ''42%''\<rparr> = Inr (42, True)
   \<and> getPercentValue \<lparr>Type = intstr_Int, IntVal = 5, StrVal = []\<rparr> = Inr (0, False)"
  using getPercentValue_examples [of 0 5 "[]"]
  by simp

end
